theory Spec2Isabelle
  imports Complex_Main "HOL-Library.Word"
begin

unbundle bit_operations_syntax

section \<open>The music playback core of SDL\_mixer (music.c)\<close>

text \<open>
  This theory embeds the functions of \<^verbatim>\<open>src/SDL_mixer/music.c\<close> that the
  specification talks about: the decoder registry, the format detector, and the playback
  controller (play, halt, fade out, volume, is-playing, halt-or-loop).

  The file is modelled in the build where \<^verbatim>\<open>WAV_MUSIC\<close> is defined, the only
  decoder the file dispatches to. The module-level variables of the C file are the fields
  of one record; every \<^verbatim>\<open>Mix_Music\<close> object lives in a store indexed by its address,
  because the controller reaches the same object both through the caller's pointer and
  through \<^verbatim>\<open>music_playing\<close>.
\<close>

subsection \<open>C integers and run-time failures\<close>

datatype error =
    Null_deref      \<comment> \<open>a member access through a NULL pointer\<close>
  | Div_by_zero     \<comment> \<open>integer division by zero\<close>
  | Int_overflow    \<comment> \<open>a signed \<^verbatim>\<open>int\<close> result outside the 32-bit range\<close>
  | Out_of_bounds   \<comment> \<open>an array read past its allocation\<close>

definition INT_MIN :: int where
  "INT_MIN = - 2147483648"

definition INT_MAX :: int where
  "INT_MAX = 2147483647"

definition c_int :: "int \<Rightarrow> error + int" where
  "c_int v = (if INT_MIN \<le> v \<and> v \<le> INT_MAX then Inr v else Inl Int_overflow)"

text \<open>C's \<^verbatim>\<open>/\<close> on \<^verbatim>\<open>int\<close> truncates towards zero.\<close>

definition trunc_div :: "int \<Rightarrow> int \<Rightarrow> int" where
  "trunc_div a b =
     (if (a < 0) = (b < 0) then \<bar>a\<bar> div \<bar>b\<bar> else - (\<bar>a\<bar> div \<bar>b\<bar>))"

definition c_add :: "int \<Rightarrow> int \<Rightarrow> error + int" where
  "c_add a b = c_int (a + b)"

definition c_sub :: "int \<Rightarrow> int \<Rightarrow> error + int" where
  "c_sub a b = c_int (a - b)"

definition c_mul :: "int \<Rightarrow> int \<Rightarrow> error + int" where
  "c_mul a b = c_int (a * b)"

definition c_div :: "int \<Rightarrow> int \<Rightarrow> error + int" where
  "c_div a b = (if b = 0 then Inl Div_by_zero else c_int (trunc_div a b))"

text \<open>Sequencing of steps that may fail: the first failure ends the computation.\<close>

definition and_then :: "error + 'a \<Rightarrow> ('a \<Rightarrow> error + 'b) \<Rightarrow> error + 'b" where
  "and_then r f = (case r of Inl e \<Rightarrow> Inl e | Inr v \<Rightarrow> f v)"

subsection \<open>Data model\<close>

text \<open>
  The two enumerations are declared in \<^verbatim>\<open>SDL_mixer.h\<close>; \<^verbatim>\<open>music.c\<close> names the
  music types \<^verbatim>\<open>MUS_NONE\<close>, \<^verbatim>\<open>MUS_WAV\<close>, \<^verbatim>\<open>MUS_MOD\<close>, \<^verbatim>\<open>MUS_MID\<close>, \<^verbatim>\<open>MUS_OGG\<close>,
  \<^verbatim>\<open>MUS_MP3\<close> and \<^verbatim>\<open>MUS_FLAC\<close>, and all three fade states.
\<close>

datatype Mix_MusicType =
  MUS_NONE | MUS_CMD | MUS_WAV | MUS_MOD | MUS_MID | MUS_OGG | MUS_MP3 | MUS_MP3_MAD
  | MUS_FLAC | MUS_MODPLUG

datatype Mix_Fading = MIX_NO_FADING | MIX_FADING_OUT | MIX_FADING_IN

type_synonym music_ptr = nat
type_synonym wave_ptr = nat

text \<open>\<^verbatim>\<open>struct _Mix_Music\<close>; \<open>wave\<close> is the member \<^verbatim>\<open>data.wave\<close>.\<close>

record Mix_Music =
  type :: Mix_MusicType
  wave :: wave_ptr
  fading :: Mix_Fading
  fade_step :: int
  fade_steps :: int
  error :: int

text \<open>
  The calls that leave the file, in the order they happen: the WAV decoder's operations
  and the application's finished hook. What the decoder and the hook do in their own
  code is outside the file; the trace records that they were called, and with which
  arguments.
\<close>

datatype call =
    WAVStream_Start wave_ptr
  | WAVStream_Stop
  | WAVStream_SetVolume int
  | Finished_hook

text \<open>
  The module-level variables. \<open>music_finished_hook\<close> tells whether a hook is
  registered (the pointer is not NULL); \<open>last_error\<close> is the string that
  \<^verbatim>\<open>Mix_SetError\<close> and \<^verbatim>\<open>SDL_SetError\<close> write; \<open>calls\<close> is the trace of outgoing calls;
  \<open>tracks\<close> is the store of \<^verbatim>\<open>Mix_Music\<close> objects.
\<close>

record music_state =
  music_active :: int
  music_stopped :: int
  music_loops :: int
  music_playing :: "music_ptr option"
  music_volume :: int
  ms_per_step :: int
  music_decoders :: "string list"
  num_decoders :: int
  music_finished_hook :: bool
  last_error :: string
  calls :: "call list"
  tracks :: "music_ptr \<Rightarrow> Mix_Music"

text \<open>
  \<^verbatim>\<open>SDL_MIX_MAXVOLUME\<close> and \<^verbatim>\<open>MIX_MAX_VOLUME\<close> come from SDL's headers, where both
  are 128.
\<close>

definition SDL_MIX_MAXVOLUME :: int where
  "SDL_MIX_MAXVOLUME = 128"

definition MIX_MAX_VOLUME :: int where
  "MIX_MAX_VOLUME = 128"

definition Mix_SetError :: "string \<Rightarrow> music_state \<Rightarrow> music_state" where
  "Mix_SetError msg s = s\<lparr>last_error := msg\<rparr>"

definition blank_track :: Mix_Music where
  "blank_track = \<lparr>type = MUS_NONE, wave = 0, fading = MIX_NO_FADING, fade_step = 0,
     fade_steps = 0, error = 0\<rparr>"

text \<open>The values of the static initialisers at program start.\<close>

definition initial_state :: music_state where
  "initial_state = \<lparr>music_active = 1, music_stopped = 0, music_loops = 0,
     music_playing = None, music_volume = MIX_MAX_VOLUME, ms_per_step = 0,
     music_decoders = [], num_decoders = 0, music_finished_hook = False,
     last_error = [], calls = [], tracks = (\<lambda>_. blank_track)\<rparr>"

subsection \<open>Decoder registry\<close>

definition Mix_GetNumMusicDecoders :: "music_state \<Rightarrow> int" where
  "Mix_GetNumMusicDecoders s = num_decoders s"

text \<open>
  The result is the returned pointer: \<open>None\<close> is NULL. A read of
  \<^verbatim>\<open>music_decoders[index]\<close> past the allocated array is a failure of the model.
\<close>

definition Mix_GetMusicDecoder :: "int \<Rightarrow> music_state \<Rightarrow> error + string option" where
  "Mix_GetMusicDecoder index s =
     (if index < 0 \<or> index \<ge> num_decoders s then Inr None
      else if nat index < length (music_decoders s)
        then Inr (Some (music_decoders s ! nat index))
        else Inl Out_of_bounds)"

text \<open>
  \<open>realloc_ok\<close> is whether \<^verbatim>\<open>SDL_realloc\<close> returned a block; when it did not the
  registry is left as it was.
\<close>

definition add_music_decoder :: "bool \<Rightarrow> string \<Rightarrow> music_state \<Rightarrow> music_state" where
  "add_music_decoder realloc_ok decoder s =
     (if \<not> realloc_ok then s
      else s\<lparr>music_decoders := (take (nat (num_decoders s)) (music_decoders s)) @ [decoder],
             num_decoders := num_decoders s + 1\<rparr>)"

text \<open>Registering a sequence of names, each with the outcome of its allocation.\<close>

fun add_music_decoders :: "(bool \<times> string) list \<Rightarrow> music_state \<Rightarrow> music_state" where
  "add_music_decoders [] s = s"
| "add_music_decoders ((ok, d) # ds) s = add_music_decoders ds (add_music_decoder ok d s)"

definition registered_names :: "(bool \<times> string) list \<Rightarrow> string list" where
  "registered_names ds = map snd (filter fst ds)"

subsection \<open>Format detector\<close>

type_synonym Uint8 = "8 word"

text \<open>
  Modelled from the spec: \<^verbatim>\<open>SDL_RWops\<close> belongs to SDL and is not part of this
  repository's sources. The specification describes it as an abstract seekable, readable
  byte source with tell, read and seek: here it is the bytes of the source and the read
  position.
\<close>

record SDL_RWops =
  rw_data :: "Uint8 list"
  rw_pos :: nat

datatype whence = RW_SEEK_SET | RW_SEEK_CUR | RW_SEEK_END

text \<open>Modelled from the spec: tell answers the read position.\<close>

definition SDL_RWtell :: "SDL_RWops \<Rightarrow> nat" where
  "SDL_RWtell src = rw_pos src"

text \<open>
  Modelled from the spec: a read of \<open>n\<close> objects of one byte returns the bytes that are
  left, at most \<open>n\<close> of them, with how many there were, and advances the position by
  that number.
\<close>

definition SDL_RWread :: "SDL_RWops \<Rightarrow> nat \<Rightarrow> Uint8 list \<times> nat \<times> SDL_RWops" where
  "SDL_RWread src n =
     (let got = take n (drop (rw_pos src) (rw_data src))
      in (got, length got, src\<lparr>rw_pos := rw_pos src + length got\<rparr>))"

text \<open>
  Modelled from the spec: seek moves the read position to an offset counted from the
  start, from the current position or from the end. The file only seeks to a position
  that tell has answered, so offsets are not negative here.
\<close>

definition SDL_RWseek :: "SDL_RWops \<Rightarrow> nat \<Rightarrow> whence \<Rightarrow> SDL_RWops" where
  "SDL_RWseek src offset wh =
     (case wh of
        RW_SEEK_SET \<Rightarrow> src\<lparr>rw_pos := offset\<rparr>
      | RW_SEEK_CUR \<Rightarrow> src\<lparr>rw_pos := rw_pos src + offset\<rparr>
      | RW_SEEK_END \<Rightarrow> src\<lparr>rw_pos := length (rw_data src) + offset\<rparr>)"

text \<open>
  C strings: the bytes of an array up to its first NUL. \<open>c_lit\<close> is a string literal with
  its terminator; \<open>strcmp_eq a b\<close> is \<^verbatim>\<open>strcmp(a, b) == 0\<close> and \<open>strncmp_eq a b n\<close> is
  \<^verbatim>\<open>strncmp(a, b, n) == 0\<close>.
\<close>

definition c_lit :: "string \<Rightarrow> Uint8 list" where
  "c_lit str = map (\<lambda>c. of_nat (of_char c)) str @ [0]"

definition c_str :: "Uint8 list \<Rightarrow> Uint8 list" where
  "c_str bs = takeWhile (\<lambda>b. b \<noteq> 0) bs"

definition strcmp_eq :: "Uint8 list \<Rightarrow> Uint8 list \<Rightarrow> bool" where
  "strcmp_eq a b = (c_str a = c_str b)"

definition strncmp_eq :: "Uint8 list \<Rightarrow> Uint8 list \<Rightarrow> nat \<Rightarrow> bool" where
  "strncmp_eq a b n = (c_str (take n a) = c_str (take n b))"

definition detect_mp3 :: "Uint8 list \<Rightarrow> int" where
  "detect_mp3 magic =
     (if strncmp_eq magic (c_lit ''ID3'') 3 then 1
      else if (magic ! 0 AND 0xff) \<noteq> 0xff \<or>
              (magic ! 1 AND 0xf0) \<noteq> 0xf0 \<or>
              (magic ! 2 AND 0xf0) = 0x00 \<or>
              (magic ! 2 AND 0xf0) = 0xf0 \<or>
              (magic ! 2 AND 0x0c) = 0x0c \<or>
              (magic ! 1 AND 0x06) = 0x00 then 0
      else 1)"

text \<open>
  The classification of \<^verbatim>\<open>detect_music_type\<close>, on the two arrays after their
  terminators are written: \<open>magic\<close> has five bytes, \<open>moremagic\<close> nine.
\<close>

definition detect_magic :: "Uint8 list \<Rightarrow> Uint8 list \<Rightarrow> Mix_MusicType" where
  "detect_magic magic moremagic =
     (if (strcmp_eq magic (c_lit ''RIFF'') \<and> strcmp_eq (drop 4 moremagic) (c_lit ''WAVE'')) \<or>
         strcmp_eq magic (c_lit ''FORM'') then MUS_WAV
      else if strcmp_eq magic (c_lit ''OggS'') then MUS_OGG
      else if strcmp_eq magic (c_lit ''fLaC'') then MUS_FLAC
      else if strcmp_eq magic (c_lit ''MThd'') then MUS_MID
      else if detect_mp3 magic \<noteq> 0 then MUS_MP3
      else MUS_MOD)"

definition detect_music_type ::
  "SDL_RWops \<Rightarrow> music_state \<Rightarrow> Mix_MusicType \<times> SDL_RWops \<times> music_state" where
  "detect_music_type src s =
     (let start = SDL_RWtell src;
          (magic, n1, src1) = SDL_RWread src 4
      in if n1 \<noteq> 4 then (MUS_NONE, src1, Mix_SetError ''Couldn't read from RWops'' s)
         else
           let (moremagic, n2, src2) = SDL_RWread src1 8
           in if n2 \<noteq> 8 then (MUS_NONE, src2, Mix_SetError ''Couldn't read from RWops'' s)
              else
                let src3 = SDL_RWseek src2 start RW_SEEK_SET
                in (detect_magic (magic @ [0]) (moremagic @ [0]), src3, s))"

text \<open>
  The detection rules in the specification's words, on the first twelve bytes of the
  stream, to be compared with \<open>detect_magic\<close>.
\<close>

definition ascii :: "string \<Rightarrow> Uint8 list" where
  "ascii str = map (\<lambda>c. of_nat (of_char c)) str"

definition spec_frame_sync :: "Uint8 list \<Rightarrow> bool" where
  "spec_frame_sync bs =
     (bs ! 0 = 0xff \<and> (bs ! 1 AND 0xf0) = 0xf0 \<and>
      (bs ! 2 AND 0xf0) \<noteq> 0x00 \<and> (bs ! 2 AND 0xf0) \<noteq> 0xf0 \<and>
      (bs ! 2 AND 0x0c) \<noteq> 0x0c \<and> (bs ! 1 AND 0x06) \<noteq> 0x00)"

definition spec_detect :: "Uint8 list \<Rightarrow> Mix_MusicType" where
  "spec_detect bs =
     (if (take 4 bs = ascii ''RIFF'' \<and> take 4 (drop 8 bs) = ascii ''WAVE'') \<or>
         take 4 bs = ascii ''FORM'' then MUS_WAV
      else if take 4 bs = ascii ''OggS'' then MUS_OGG
      else if take 4 bs = ascii ''fLaC'' then MUS_FLAC
      else if take 4 bs = ascii ''MThd'' then MUS_MID
      else if take 3 bs = ascii ''ID3'' \<or> spec_frame_sync bs then MUS_MP3
      else MUS_MOD)"

subsection \<open>Playback controller: the internal operations\<close>

definition music_internal_volume :: "int \<Rightarrow> music_state \<Rightarrow> error + music_state" where
  "music_internal_volume volume s =
     (case music_playing s of
        None \<Rightarrow> Inl Null_deref
      | Some p \<Rightarrow>
          (case type (tracks s p) of
             MUS_WAV \<Rightarrow> Inr (s\<lparr>calls := calls s @ [WAVStream_SetVolume volume]\<rparr>)
           | _ \<Rightarrow> Inr s))"

definition music_internal_initialize_volume :: "music_state \<Rightarrow> error + music_state" where
  "music_internal_initialize_volume s =
     (case music_playing s of
        None \<Rightarrow> Inl Null_deref
      | Some p \<Rightarrow>
          if fading (tracks s p) = MIX_FADING_IN then music_internal_volume 0 s
          else music_internal_volume (music_volume s) s)"

text \<open>
  No case of the switch in \<^verbatim>\<open>music_internal_position\<close> implements seeking: every
  type takes the default branch. The position is a \<^verbatim>\<open>double\<close>; the file only ever
  compares it with \<^verbatim>\<open>0.0\<close>, so it is modelled as a real number.
\<close>

definition music_internal_position :: "real \<Rightarrow> music_state \<Rightarrow> error + int" where
  "music_internal_position position s =
     (case music_playing s of
        None \<Rightarrow> Inl Null_deref
      | Some p \<Rightarrow> (case type (tracks s p) of _ \<Rightarrow> Inr (- 1)))"

definition music_internal_halt :: "music_state \<Rightarrow> error + music_state" where
  "music_internal_halt s =
     (case music_playing s of
        None \<Rightarrow> Inl Null_deref
      | Some p \<Rightarrow>
          (case type (tracks s p) of
             MUS_WAV \<Rightarrow>
               Inr (s\<lparr>calls := calls s @ [WAVStream_Stop],
                      tracks := (tracks s)(p := (tracks s p)\<lparr>fading := MIX_NO_FADING\<rparr>),
                      music_playing := None\<rparr>)
           | _ \<Rightarrow> Inr s))"

text \<open>
  \<open>wav_active\<close> is what \<^verbatim>\<open>WAVStream_Active()\<close> answers when it is asked.
\<close>

definition music_internal_playing :: "bool \<Rightarrow> music_state \<Rightarrow> int" where
  "music_internal_playing wav_active s =
     (case music_playing s of
        None \<Rightarrow> 0
      | Some p \<Rightarrow>
          (case type (tracks s p) of
             MUS_WAV \<Rightarrow> (if \<not> wav_active then 0 else 1)
           | _ \<Rightarrow> 0))"

definition music_internal_play ::
  "music_ptr \<Rightarrow> real \<Rightarrow> music_state \<Rightarrow> error + (int \<times> music_state)" where
  "music_internal_play music position s =
     and_then (if music_playing s \<noteq> None then music_internal_halt s else Inr s) (\<lambda>s1.
     let s2 = s1\<lparr>music_playing := Some music\<rparr> in
     and_then (if type (tracks s2 music) \<noteq> MUS_MOD
               then music_internal_initialize_volume s2 else Inr s2) (\<lambda>s3.
     let (retval, s4) =
           (case type (tracks s3 music) of
              MUS_WAV \<Rightarrow> (0, s3\<lparr>calls := calls s3 @ [WAVStream_Start (wave (tracks s3 music))]\<rparr>)
            | _ \<Rightarrow> (- 1, Mix_SetError ''Can't play unknown music type'' s3)) in
     and_then
       (if retval = 0 then
          (if position > 0 then
             and_then (music_internal_position position s4) (\<lambda>r.
               if r < 0
               then Inr (- 1, Mix_SetError ''Position not implemented for music type'' s4)
               else Inr (retval, s4))
           else and_then (music_internal_position 0 s4) (\<lambda>_. Inr (retval, s4)))
        else Inr (retval, s4)) (\<lambda>(retval, s5).
     Inr (retval, if retval < 0 then s5\<lparr>music_playing := None\<rparr> else s5))))"

text \<open>
  \<^verbatim>\<open>music_halt_or_loop\<close>; the result is the returned \<^verbatim>\<open>int\<close> and the state.
\<close>

definition music_halt_or_loop :: "bool \<Rightarrow> music_state \<Rightarrow> error + (int \<times> music_state)" where
  "music_halt_or_loop wav_active s =
     (if music_internal_playing wav_active s = 0 then
        (if music_loops s \<noteq> 0 then
           (let s1 = (if music_loops s > 0 then s\<lparr>music_loops := music_loops s - 1\<rparr> else s)
            in case music_playing s1 of
                 None \<Rightarrow> Inl Null_deref
               | Some p \<Rightarrow>
                   let current_fade = fading (tracks s1 p)
                   in and_then (music_internal_play p 0 s1) (\<lambda>(_, s2).
                        case music_playing s2 of
                          None \<Rightarrow> Inl Null_deref
                        | Some q \<Rightarrow>
                            Inr (1, s2\<lparr>tracks := (tracks s2)
                                   (q := (tracks s2 q)\<lparr>fading := current_fade\<rparr>)\<rparr>)))
         else
           and_then (music_internal_halt s) (\<lambda>s1.
             Inr (0, if music_finished_hook s1
                     then s1\<lparr>calls := calls s1 @ [Finished_hook]\<rparr> else s1)))
      else Inr (1, s))"

subsection \<open>Playback controller: the public operations\<close>

definition SDL_SetError :: "string \<Rightarrow> music_state \<Rightarrow> music_state" where
  "SDL_SetError msg s = s\<lparr>last_error := msg\<rparr>"

definition Mix_HookMusicFinished :: "bool \<Rightarrow> music_state \<Rightarrow> music_state" where
  "Mix_HookMusicFinished music_finished s = s\<lparr>music_finished_hook := music_finished\<rparr>"

definition Mix_VolumeMusic :: "int \<Rightarrow> music_state \<Rightarrow> error + (int \<times> music_state)" where
  "Mix_VolumeMusic volume s =
     (let prev_volume = music_volume s
      in if volume < 0 then Inr (prev_volume, s)
         else
           let volume1 = (if volume > SDL_MIX_MAXVOLUME then SDL_MIX_MAXVOLUME else volume);
               s1 = s\<lparr>music_volume := volume1\<rparr>
           in if music_playing s1 \<noteq> None
              then and_then (music_internal_volume (music_volume s1) s1)
                     (\<lambda>s2. Inr (prev_volume, s2))
              else Inr (prev_volume, s1))"

definition Mix_HaltMusic :: "music_state \<Rightarrow> error + (int \<times> music_state)" where
  "Mix_HaltMusic s =
     (if music_playing s \<noteq> None then
        and_then (music_internal_halt s) (\<lambda>s1.
          Inr (0, if music_finished_hook s1
                  then s1\<lparr>calls := calls s1 @ [Finished_hook]\<rparr> else s1))
      else Inr (0, s))"

definition Mix_FadeOutMusic :: "int \<Rightarrow> music_state \<Rightarrow> error + (int \<times> music_state)" where
  "Mix_FadeOutMusic ms s =
     (if ms_per_step s = 0
      then Inr (0, SDL_SetError ''Audio device hasn't been opened'' s)
      else if ms \<le> 0 then and_then (Mix_HaltMusic s) (\<lambda>(_, s1). Inr (1, s1))
      else
        case music_playing s of
          None \<Rightarrow> Inr (0, s)
        | Some p \<Rightarrow>
            and_then (c_add ms (ms_per_step s)) (\<lambda>sum.
            and_then (c_sub sum 1) (\<lambda>numerator.
            and_then (c_div numerator (ms_per_step s)) (\<lambda>new_fade_steps.
            and_then
              (if fading (tracks s p) = MIX_NO_FADING then Inr 0
               else
                 let old_fade_steps = fade_steps (tracks s p)
                 in and_then
                      (if fading (tracks s p) = MIX_FADING_OUT
                       then Inr (fade_step (tracks s p))
                       else and_then (c_sub old_fade_steps (fade_step (tracks s p)))
                              (\<lambda>d. c_add d 1)) (\<lambda>step.
                    and_then (c_mul step new_fade_steps) (\<lambda>product.
                    c_div product old_fade_steps))) (\<lambda>new_fade_step.
            Inr (1, s\<lparr>tracks := (tracks s)
                       (p := (tracks s p)\<lparr>fading := MIX_FADING_OUT,
                               fade_step := new_fade_step,
                               fade_steps := new_fade_steps\<rparr>)\<rparr>))))))"

definition Mix_PlayingMusic :: "bool \<Rightarrow> music_state \<Rightarrow> int" where
  "Mix_PlayingMusic wav_active s =
     (case music_playing s of
        None \<Rightarrow> 0
      | Some _ \<Rightarrow>
          if music_loops s \<noteq> 0 then 1
          else if music_internal_playing wav_active s \<noteq> 0 then 1 else 0)"

text \<open>
  \<^verbatim>\<open>Mix_FadeInMusicPos\<close> waits, with the audio lock released while it sleeps, until no
  fade-out is in progress. Only the audio thread changes the state meanwhile:
  \<open>audio_thread\<close> is what it does to the state during one such sleep. The wait is
  \<open>None\<close> when it never ends.
\<close>

definition fade_out_pending :: "music_state \<Rightarrow> bool" where
  "fade_out_pending s =
     (case music_playing s of
        None \<Rightarrow> False
      | Some p \<Rightarrow> fading (tracks s p) = MIX_FADING_OUT)"

partial_function (option) wait_fade_out ::
  "(music_state \<Rightarrow> music_state) \<Rightarrow> music_state \<Rightarrow> music_state option" where
  "wait_fade_out audio_thread s =
     (if fade_out_pending s then wait_fade_out audio_thread (audio_thread s) else Some s)"

declare wait_fade_out.simps [code]

definition Mix_FadeInMusicPos ::
  "(music_state \<Rightarrow> music_state) \<Rightarrow> music_ptr option \<Rightarrow> int \<Rightarrow> int \<Rightarrow> real \<Rightarrow>
     music_state \<Rightarrow> (error + (int \<times> music_state)) option" where
  "Mix_FadeInMusicPos audio_thread music loops ms position s =
     (if ms_per_step s = 0
      then Some (Inr (- 1, SDL_SetError ''Audio device hasn't been opened'' s))
      else
        case music of
          None \<Rightarrow> Some (Inr (- 1, Mix_SetError ''music parameter was NULL'' s))
        | Some m \<Rightarrow>
            (case c_div ms (ms_per_step s) of
               Inl e \<Rightarrow> Some (Inl e)
             | Inr new_fade_steps \<Rightarrow>
                 let new_fading = (if ms \<noteq> 0 then MIX_FADING_IN else MIX_NO_FADING);
                     s1 = s\<lparr>tracks := (tracks s)
                            (m := (tracks s m)\<lparr>fading := new_fading,
                                    fade_step := 0,
                                    fade_steps := new_fade_steps\<rparr>)\<rparr>
                 in (case wait_fade_out audio_thread s1 of
                       None \<Rightarrow> None
                     | Some s2 \<Rightarrow>
                         let s3 = s2\<lparr>music_active := 1\<rparr>;
                             loops1 = (if loops = 1 then 0 else loops);
                             s4 = s3\<lparr>music_loops := loops1\<rparr>
                         in Some (music_internal_play m position s4))))"

definition Mix_FadeInMusic ::
  "(music_state \<Rightarrow> music_state) \<Rightarrow> music_ptr option \<Rightarrow> int \<Rightarrow> int \<Rightarrow>
     music_state \<Rightarrow> (error + (int \<times> music_state)) option" where
  "Mix_FadeInMusic audio_thread music loops ms s =
     Mix_FadeInMusicPos audio_thread music loops ms 0 s"

definition Mix_PlayMusic ::
  "(music_state \<Rightarrow> music_state) \<Rightarrow> music_ptr option \<Rightarrow> int \<Rightarrow>
     music_state \<Rightarrow> (error + (int \<times> music_state)) option" where
  "Mix_PlayMusic audio_thread music loops s =
     Mix_FadeInMusicPos audio_thread music loops 0 0 s"

text \<open>How often the finished hook has been invoked in a trace.\<close>

definition hook_count :: "call list \<Rightarrow> nat" where
  "hook_count cs = length (filter (\<lambda>c. c = Finished_hook) cs)"

text \<open>
  Example states for the concrete evaluations below: a device opened with 11 ms per
  callback, one WAV track at address 1, and that track playing.
\<close>

definition wav_track :: Mix_Music where
  "wav_track = \<lparr>type = MUS_WAV, wave = 7, fading = MIX_NO_FADING, fade_step = 0,
     fade_steps = 0, error = 0\<rparr>"

definition opened_state :: music_state where
  "opened_state = initial_state\<lparr>ms_per_step := 11, tracks := (\<lambda>_. blank_track)(1 := wav_track)\<rparr>"

definition playing_state :: music_state where
  "playing_state = opened_state\<lparr>music_playing := Some 1\<rparr>"

definition fading_state :: music_state where
  "fading_state = playing_state\<lparr>tracks := (tracks playing_state)
     (1 := wav_track\<lparr>fading := MIX_FADING_OUT, fade_step := 12, fade_steps := 46\<rparr>)\<rparr>"

definition fading_in_state :: music_state where
  "fading_in_state = playing_state\<lparr>tracks := (tracks playing_state)
     (1 := wav_track\<lparr>fading := MIX_FADING_IN, fade_step := 30, fade_steps := 90\<rparr>)\<rparr>"

definition hooked_state :: music_state where
  "hooked_state = Mix_HookMusicFinished True fading_state"

definition short_source :: SDL_RWops where
  "short_source = \<lparr>rw_data = ascii ''RIFFab'', rw_pos = 0\<rparr>"

definition wav_source :: SDL_RWops where
  "wav_source = \<lparr>rw_data = ascii ''xxRIFF0000WAVEfmt '', rw_pos = 2\<rparr>"

subsection \<open>Auxiliary notions for the statements and proofs\<close>

text \<open>What a call returned, when it returned without a run-time failure.\<close>

definition returned :: "(error + 'a) option \<Rightarrow> 'a option" where
  "returned res = (case res of Some (Inr v) \<Rightarrow> Some v | _ \<Rightarrow> None)"

definition track_after :: "music_ptr \<Rightarrow> error + (int \<times> music_state) \<Rightarrow> Mix_Music option" where
  "track_after p res = (case res of Inr (_, s') \<Rightarrow> Some (tracks s' p) | Inl _ \<Rightarrow> None)"

text \<open>The registry's two variables agree: the count is the length of the array.\<close>

definition registry_ok :: "music_state \<Rightarrow> bool" where
  "registry_ok s = (num_decoders s = int (length (music_decoders s)))"

text \<open>
  The state after the first step of \<open>music_internal_play\<close>, which halts the track that
  was playing, if any; and the state once a WAV track \<open>m\<close> has been started.
\<close>

definition after_halt :: "music_state \<Rightarrow> music_state" where
  "after_halt s =
     (case music_playing s of
        None \<Rightarrow> s
      | Some q \<Rightarrow>
          if type (tracks s q) = MUS_WAV
          then s\<lparr>calls := calls s @ [WAVStream_Stop],
                 tracks := (tracks s)(q := (tracks s q)\<lparr>fading := MIX_NO_FADING\<rparr>),
                 music_playing := None\<rparr>
          else s)"

definition started :: "music_ptr \<Rightarrow> music_state \<Rightarrow> music_state" where
  "started m s =
     (let h = after_halt s
      in h\<lparr>music_playing := Some m,
           calls := calls h @
             [WAVStream_SetVolume
                (if fading (tracks h m) = MIX_FADING_IN then 0 else music_volume s),
              WAVStream_Start (wave (tracks s m))]\<rparr>)"

text \<open>
  The progress already made by a fade, counted in steps of a fade-out: the specification's
  ``elapsed equivalent steps''.
\<close>

definition elapsed_equivalent_steps :: "Mix_Music \<Rightarrow> int" where
  "elapsed_equivalent_steps t =
     (if fading t = MIX_FADING_OUT then fade_step t
      else fade_steps t - fade_step t + 1)"

text \<open>
  A value that a C \<^verbatim>\<open>int\<close> holds; the new total that \<^verbatim>\<open>Mix_FadeOutMusic\<close> computes
  from a duration and the step length; and the condition that no arithmetic result of
  the rescaling of lines 702--715 leaves the range of \<^verbatim>\<open>int\<close> (the subtraction and the
  increment are only computed when the track is not already fading out).
\<close>

definition fits_int :: "int \<Rightarrow> bool" where
  "fits_int v = (INT_MIN \<le> v \<and> v \<le> INT_MAX)"

definition new_fade_total :: "int \<Rightarrow> int \<Rightarrow> int" where
  "new_fade_total ms step_ms = trunc_div (ms + step_ms - 1) step_ms"

definition rescale_fits :: "int \<Rightarrow> int \<Rightarrow> Mix_Music \<Rightarrow> bool" where
  "rescale_fits ms step_ms t =
     (fits_int (ms + step_ms) \<and> fits_int (ms + step_ms - 1) \<and>
      fits_int (new_fade_total ms step_ms) \<and>
      (fading t = MIX_FADING_OUT \<or>
         fits_int (fade_steps t - fade_step t) \<and> fits_int (fade_steps t - fade_step t + 1)) \<and>
      fits_int (elapsed_equivalent_steps t * new_fade_total ms step_ms) \<and>
      fits_int (trunc_div (elapsed_equivalent_steps t * new_fade_total ms step_ms)
                  (fade_steps t)))"


section \<open>Basic facts\<close>

subsection \<open>Failure sequencing and C arithmetic\<close>

lemma and_then_Inr [simp]: "and_then (Inr v) f = f v"
  by (simp add: and_then_def)

lemma and_then_Inl [simp]: "and_then (Inl e) f = Inl e"
  by (simp add: and_then_def)

lemma and_then_eq_Inr:
  "(and_then x f = Inr w) = (\<exists>v. x = Inr v \<and> f v = Inr w)"
  by (cases x) simp_all

lemma c_int_Inr: "c_int v = Inr w \<Longrightarrow> w = v"
  by (simp add: c_int_def split: if_splits)

lemma c_int_in_range: "INT_MIN \<le> v \<Longrightarrow> v \<le> INT_MAX \<Longrightarrow> c_int v = Inr v"
  by (simp add: c_int_def)

lemma c_int_fits: "fits_int v \<Longrightarrow> c_int v = Inr v"
  by (simp add: fits_int_def c_int_def)

lemma c_arith_Inr:
  "c_add a b = Inr w \<Longrightarrow> w = a + b"
  "c_sub a b = Inr w \<Longrightarrow> w = a - b"
  "c_mul a b = Inr w \<Longrightarrow> w = a * b"
  "c_div a b = Inr w \<Longrightarrow> b \<noteq> 0 \<and> w = trunc_div a b"
  by (auto simp: c_add_def c_sub_def c_mul_def c_div_def dest: c_int_Inr split: if_splits)

lemma abs_trunc_div_le: "\<bar>trunc_div a b\<bar> \<le> \<bar>a\<bar>"
proof -
  have nn: "0 \<le> \<bar>a\<bar> div \<bar>b\<bar>"
    by (cases "b = 0") (simp_all add: pos_imp_zdiv_nonneg_iff)
  have "\<bar>trunc_div a b\<bar> = \<bar>a\<bar> div \<bar>b\<bar>"
    using nn by (simp add: trunc_div_def)
  also have "\<dots> \<le> \<bar>a\<bar>"
    using int_div_le_self [of "\<bar>a\<bar>" "\<bar>b\<bar>"] by (cases "a = 0") simp_all
  finally show ?thesis .
qed

lemma trunc_div_nonneg: "0 \<le> a \<Longrightarrow> 0 < b \<Longrightarrow> trunc_div a b = a div b"
  by (simp add: trunc_div_def)

lemma c_div_in_range:
  assumes "b \<noteq> 0" and "INT_MIN < a" and "a \<le> INT_MAX"
  shows "c_div a b = Inr (trunc_div a b)"
proof -
  have "\<bar>trunc_div a b\<bar> \<le> \<bar>a\<bar>" by (rule abs_trunc_div_le)
  moreover have "\<bar>a\<bar> \<le> 2147483647" using assms by (simp add: INT_MIN_def INT_MAX_def)
  ultimately have "- 2147483648 \<le> trunc_div a b \<and> trunc_div a b \<le> 2147483647"
    by linarith
  then show ?thesis using assms(1) by (simp add: c_div_def c_int_def INT_MIN_def INT_MAX_def)
qed

subsection \<open>C strings\<close>

lemma c_str_terminated:
  assumes "0 \<notin> set ys"
  shows "c_str (ys @ [0]) = ys"
proof -
  have "takeWhile (\<lambda>b. b \<noteq> 0) ys = ys"
    using assms by (intro takeWhile_eq_all_conv [THEN iffD2]) auto
  then show ?thesis
    using assms by (simp add: c_str_def takeWhile_append)
qed

lemma takeWhile_eq_same_length:
  assumes "length xs = length ys" and "0 \<notin> set ys"
  shows "(takeWhile (\<lambda>b. b \<noteq> (0::Uint8)) xs = ys) = (xs = ys)"
proof
  assume eq: "takeWhile (\<lambda>b. b \<noteq> 0) xs = ys"
  have "takeWhile (\<lambda>b. b \<noteq> 0) xs @ dropWhile (\<lambda>b. b \<noteq> 0) xs = xs"
    by simp
  moreover have "length (takeWhile (\<lambda>b. b \<noteq> 0) xs) = length xs"
    using eq assms(1) by simp
  ultimately have "dropWhile (\<lambda>b. b \<noteq> 0) xs = []"
    by (metis append_eq_conv_conj drop_all order_refl)
  then show "xs = ys" using eq by (metis takeWhile_dropWhile_id append_Nil2)
next
  assume "xs = ys"
  then show "takeWhile (\<lambda>b. b \<noteq> 0) xs = ys"
    using assms(2) by (auto simp: takeWhile_eq_all_conv)
qed

lemma strcmp_eq_literal:
  assumes "length xs = length str" and "0 \<notin> set (ascii str)"
  shows "strcmp_eq (xs @ [0]) (c_lit str) = (xs = ascii str)"
proof -
  have lit: "c_str (c_lit str) = ascii str"
    using c_str_terminated [OF assms(2)] by (simp add: c_lit_def ascii_def)
  have len: "length xs = length (ascii str)"
    using assms(1) by (simp add: ascii_def)
  show ?thesis
  proof (cases "0 \<in> set xs")
    case False
    then have "c_str (xs @ [0]) = xs" by (rule c_str_terminated)
    then show ?thesis by (simp add: strcmp_eq_def lit)
  next
    case True
    then have "c_str (xs @ [0]) = takeWhile (\<lambda>b. b \<noteq> 0) xs"
      by (auto simp: c_str_def takeWhile_append)
    then show ?thesis
      using takeWhile_eq_same_length [OF len assms(2)] by (simp add: strcmp_eq_def lit)
  qed
qed

lemma byte_mask: "(x :: Uint8) AND 0xff = x"
proof -
  have "(0xff :: Uint8) = - 1" by simp
  then show ?thesis by (simp only: word_and_max)
qed

subsection \<open>The detector on a full read\<close>

lemma strncmp_eq_ID3:
  assumes "length bs = 12"
  shows "strncmp_eq (take 4 bs @ [0]) (c_lit ''ID3'') 3 = (take 3 bs = ascii ''ID3'')"
proof -
  have nz: "0 \<notin> set (ascii ''ID3'')" by (simp add: ascii_def)
  have lit: "c_str (take 3 (c_lit ''ID3'')) = ascii ''ID3''"
    by (simp add: c_lit_def ascii_def c_str_def)
  have arr: "take 3 (take 4 bs @ [0]) = take 3 bs"
    using assms by simp
  have len: "length (take 3 bs) = length (ascii ''ID3'')"
    using assms by (simp add: ascii_def)
  show ?thesis
    unfolding strncmp_eq_def lit arr
    unfolding c_str_def
    by (rule takeWhile_eq_same_length [OF len nz])
qed

lemma detect_mp3_spec:
  assumes "length bs = 12"
  shows "(detect_mp3 (take 4 bs @ [0]) \<noteq> 0) = (take 3 bs = ascii ''ID3'' \<or> spec_frame_sync bs)"
proof -
  have nth: "(take 4 bs @ [0]) ! 0 = bs ! 0" "(take 4 bs @ [0]) ! 1 = bs ! 1"
    "(take 4 bs @ [0]) ! 2 = bs ! 2"
    using assms by (simp_all add: nth_append)
  show ?thesis
    unfolding detect_mp3_def strncmp_eq_ID3 [OF assms] nth spec_frame_sync_def byte_mask
    by auto
qed

lemma strcmp_eq_magic:
  assumes "length bs = 12" and "length str = 4" and "0 \<notin> set (ascii str)"
  shows "strcmp_eq (take 4 bs @ [0]) (c_lit str) = (take 4 bs = ascii str)"
proof (rule strcmp_eq_literal)
  show "length (take 4 bs) = length str" using assms by simp
  show "0 \<notin> set (ascii str)" by fact
qed

lemma strcmp_eq_moremagic:
  assumes "length bs = 12"
  shows "strcmp_eq (drop 4 (drop 4 bs @ [0])) (c_lit ''WAVE'') =
      (take 4 (drop 8 bs) = ascii ''WAVE'')"
proof -
  have d: "drop 4 (drop 4 bs @ [0]) = drop 8 bs @ [0]"
    using assms by simp
  have t: "take 4 (drop 8 bs) = drop 8 bs"
    using assms by simp
  have "strcmp_eq (drop 8 bs @ [0]) (c_lit ''WAVE'') = (drop 8 bs = ascii ''WAVE'')"
  proof (rule strcmp_eq_literal)
    show "length (drop 8 bs) = length ''WAVE''" using assms by simp
    show "0 \<notin> set (ascii ''WAVE'')" by (simp add: ascii_def)
  qed
  then show ?thesis unfolding d t .
qed

lemma detect_magic_spec:
  assumes "length bs = 12"
  shows "detect_magic (take 4 bs @ [0]) (drop 4 bs @ [0]) = spec_detect bs"
proof -
  have riff: "strcmp_eq (take 4 bs @ [0]) (c_lit ''RIFF'') = (take 4 bs = ascii ''RIFF'')"
    by (rule strcmp_eq_magic [OF assms]) (simp_all add: ascii_def)
  have form: "strcmp_eq (take 4 bs @ [0]) (c_lit ''FORM'') = (take 4 bs = ascii ''FORM'')"
    by (rule strcmp_eq_magic [OF assms]) (simp_all add: ascii_def)
  have oggs: "strcmp_eq (take 4 bs @ [0]) (c_lit ''OggS'') = (take 4 bs = ascii ''OggS'')"
    by (rule strcmp_eq_magic [OF assms]) (simp_all add: ascii_def)
  have flac: "strcmp_eq (take 4 bs @ [0]) (c_lit ''fLaC'') = (take 4 bs = ascii ''fLaC'')"
    by (rule strcmp_eq_magic [OF assms]) (simp_all add: ascii_def)
  have mthd: "strcmp_eq (take 4 bs @ [0]) (c_lit ''MThd'') = (take 4 bs = ascii ''MThd'')"
    by (rule strcmp_eq_magic [OF assms]) (simp_all add: ascii_def)
  show ?thesis
    unfolding detect_magic_def spec_detect_def riff form oggs flac mthd
      strcmp_eq_moremagic [OF assms] detect_mp3_spec [OF assms]
    by (rule refl)
qed

lemma SDL_RWread_enough:
  assumes "rw_pos src + n \<le> length (rw_data src)"
  shows "SDL_RWread src n =
     (take n (drop (rw_pos src) (rw_data src)), n, src\<lparr>rw_pos := rw_pos src + n\<rparr>)"
proof -
  have "length (take n (drop (rw_pos src) (rw_data src))) = n"
    using assms by simp
  then show ?thesis by (simp add: SDL_RWread_def Let_def)
qed

lemma detect_music_type_full_read:
  assumes "rw_pos src + 12 \<le> length (rw_data src)"
  shows "detect_music_type src s =
          (spec_detect (take 12 (drop (rw_pos src) (rw_data src))), src, s)"
proof -
  define bs where "bs = take 12 (drop (rw_pos src) (rw_data src))"
  have len: "length bs = 12" using assms by (simp add: bs_def)
  have "rw_pos src + 4 \<le> length (rw_data src)" using assms by simp
  then have r1: "SDL_RWread src 4 = (take 4 bs, 4, src\<lparr>rw_pos := rw_pos src + 4\<rparr>)"
    by (simp add: SDL_RWread_enough bs_def)
  have "rw_pos (src\<lparr>rw_pos := rw_pos src + 4\<rparr>) + 8
          \<le> length (rw_data (src\<lparr>rw_pos := rw_pos src + 4\<rparr>))"
    using assms by simp
  then have r2: "SDL_RWread (src\<lparr>rw_pos := rw_pos src + 4\<rparr>) 8 =
      (drop 4 bs, 8, src\<lparr>rw_pos := rw_pos src + 12\<rparr>)"
    by (simp add: SDL_RWread_enough bs_def drop_take add.commute)
  show ?thesis
    unfolding detect_music_type_def r1 Let_def
    using detect_magic_spec [OF len]
    by (simp add: r2 SDL_RWtell_def SDL_RWseek_def bs_def)
qed

subsection \<open>The internal operations on an active track\<close>

lemma music_internal_halt_active:
  "music_playing s = Some p \<Longrightarrow>
     music_internal_halt s =
       Inr (if type (tracks s p) = MUS_WAV
            then s\<lparr>calls := calls s @ [WAVStream_Stop],
                   tracks := (tracks s)(p := (tracks s p)\<lparr>fading := MIX_NO_FADING\<rparr>),
                   music_playing := None\<rparr>
            else s)"
  by (simp add: music_internal_halt_def split: Mix_MusicType.splits)

lemma music_internal_volume_active:
  "music_playing s = Some p \<Longrightarrow>
     music_internal_volume v s =
       Inr (if type (tracks s p) = MUS_WAV
            then s\<lparr>calls := calls s @ [WAVStream_SetVolume v]\<rparr> else s)"
  by (simp add: music_internal_volume_def split: Mix_MusicType.splits)

lemma music_internal_initialize_volume_active:
  "music_playing s = Some p \<Longrightarrow>
     music_internal_initialize_volume s =
       Inr (if type (tracks s p) = MUS_WAV
            then s\<lparr>calls := calls s @
                   [WAVStream_SetVolume
                      (if fading (tracks s p) = MIX_FADING_IN then 0 else music_volume s)]\<rparr>
            else s)"
  by (simp add: music_internal_initialize_volume_def music_internal_volume_active)

lemma music_internal_position_active:
  "music_playing s = Some p \<Longrightarrow> music_internal_position position s = Inr (- 1)"
  by (simp add: music_internal_position_def split: Mix_MusicType.splits)

lemma halt_if_playing:
  "(if music_playing s \<noteq> None then music_internal_halt s else Inr s) = Inr (after_halt s)"
  by (cases "music_playing s") (simp_all add: after_halt_def music_internal_halt_active)

lemma after_halt_type [simp]: "type (tracks (after_halt s) x) = type (tracks s x)"
  by (simp add: after_halt_def split: option.splits)

lemma after_halt_fields [simp]:
  "music_loops (after_halt s) = music_loops s"
  "music_volume (after_halt s) = music_volume s"
  "last_error (after_halt s) = last_error s"
  "music_finished_hook (after_halt s) = music_finished_hook s"
  "wave (tracks (after_halt s) x) = wave (tracks s x)"
  by (simp_all add: after_halt_def split: option.splits)

lemma started_fields [simp]:
  "music_loops (started m s) = music_loops s"
  "music_playing (started m s) = Some m"
  "last_error (started m s) = last_error s"
  "type (tracks (started m s) x) = type (tracks s x)"
  by (simp_all add: started_def Let_def)

text \<open>
  \<open>music_internal_play\<close> never fails at run time, and its three outcomes are: a WAV track
  asked to start at a positive position, a WAV track started at the beginning, and a
  track of a type without a decoder.
\<close>

lemma music_internal_play_wav:
  assumes "type (tracks s m) = MUS_WAV"
  shows "music_internal_play m position s =
     Inr (if 0 < position
          then (- 1, (started m s)\<lparr>last_error := ''Position not implemented for music type'',
                                   music_playing := None\<rparr>)
          else (0, started m s))"
proof -
  let ?s2 = "(after_halt s)\<lparr>music_playing := Some m\<rparr>"
  have t2: "type (tracks ?s2 m) = MUS_WAV" using assms by simp
  have iv: "music_internal_initialize_volume ?s2 =
      Inr (?s2\<lparr>calls := calls ?s2 @
             [WAVStream_SetVolume
                (if fading (tracks ?s2 m) = MIX_FADING_IN then 0 else music_volume ?s2)]\<rparr>)"
    using music_internal_initialize_volume_active [of ?s2 m] t2 by simp
  show ?thesis
    unfolding music_internal_play_def halt_if_playing
    using assms
    by (simp add: iv Let_def music_internal_position_active started_def Mix_SetError_def)
qed

lemma music_internal_play_other:
  assumes "type (tracks s m) \<noteq> MUS_WAV"
  shows "music_internal_play m position s =
     Inr (- 1, (after_halt s)\<lparr>last_error := ''Can't play unknown music type'',
                              music_playing := None\<rparr>)"
proof -
  let ?s2 = "(after_halt s)\<lparr>music_playing := Some m\<rparr>"
  have t2: "type (tracks ?s2 m) \<noteq> MUS_WAV" using assms by simp
  have iv: "music_internal_initialize_volume ?s2 = Inr ?s2"
    using music_internal_initialize_volume_active [of ?s2 m] t2 by simp
  show ?thesis
    unfolding music_internal_play_def halt_if_playing
    using assms
    by (simp add: iv Let_def Mix_SetError_def split: Mix_MusicType.splits)
qed

lemma music_internal_play_cases:
  "music_internal_play m position s =
     Inr (if type (tracks s m) = MUS_WAV
          then (if 0 < position
                then (- 1, (started m s)\<lparr>last_error := ''Position not implemented for music type'',
                                         music_playing := None\<rparr>)
                else (0, started m s))
          else (- 1, (after_halt s)\<lparr>last_error := ''Can't play unknown music type'',
                                   music_playing := None\<rparr>))"
  using music_internal_play_wav [of s m position] music_internal_play_other [of s m position]
  by simp

text \<open>
  Whatever was playing before, the track that \<open>music_internal_play\<close> leaves active is a
  WAV track: no other type ever stays in \<open>music_playing\<close>.
\<close>

lemma music_internal_play_active_is_wav:
  assumes "music_internal_play m position s = Inr (r, s')" and "music_playing s' = Some p"
  shows "type (tracks s' p) = MUS_WAV"
  using assms by (auto simp: music_internal_play_cases split: if_splits)

subsection \<open>The wait for a fade-out, and when a play request returns\<close>

lemma wait_fade_out_idle:
  "\<not> fade_out_pending s \<Longrightarrow> wait_fade_out audio_thread s = Some s"
  by (subst wait_fade_out.simps) simp

lemma Mix_FadeInMusicPos_idle:
  assumes "ms_per_step s \<noteq> 0" and "\<not> fade_out_pending s"
    and "INT_MIN < ms" and "ms \<le> INT_MAX"
  shows "Mix_FadeInMusicPos audio_thread (Some m) loops ms position s =
     Some (music_internal_play m position
       (s\<lparr>tracks := (tracks s)
            (m := (tracks s m)\<lparr>fading := (if ms \<noteq> 0 then MIX_FADING_IN else MIX_NO_FADING),
                   fade_step := 0, fade_steps := trunc_div ms (ms_per_step s)\<rparr>),
          music_active := 1,
          music_loops := (if loops = 1 then 0 else loops)\<rparr>))"
proof -
  have d: "c_div ms (ms_per_step s) = Inr (trunc_div ms (ms_per_step s))"
    using assms by (simp add: c_div_in_range)
  let ?s1 = "s\<lparr>tracks := (tracks s)
      (m := (tracks s m)\<lparr>fading := (if ms \<noteq> 0 then MIX_FADING_IN else MIX_NO_FADING),
             fade_step := 0, fade_steps := trunc_div ms (ms_per_step s)\<rparr>)\<rparr>"
  have "\<not> fade_out_pending ?s1"
    using assms(2) by (auto simp: fade_out_pending_def split: option.splits)
  then have w: "wait_fade_out audio_thread ?s1 = Some ?s1"
    by (rule wait_fade_out_idle)
  show ?thesis
    using assms(1) by (simp add: Mix_FadeInMusicPos_def d w Let_def)
qed


subsection \<open>Halting and the finished hook\<close>

lemma hook_count_append [simp]:
  "hook_count (xs @ ys) = hook_count xs + hook_count ys"
  by (simp add: hook_count_def)

lemma hook_count_simps [simp]:
  "hook_count [] = 0"
  "hook_count (Finished_hook # cs) = Suc (hook_count cs)"
  "hook_count (WAVStream_Stop # cs) = hook_count cs"
  "hook_count (WAVStream_Start w # cs) = hook_count cs"
  "hook_count (WAVStream_SetVolume v # cs) = hook_count cs"
  by (simp_all add: hook_count_def)

lemma Mix_HaltMusic_result:
  "Mix_HaltMusic s =
     Inr (0, case music_playing s of
               None \<Rightarrow> s
             | Some p \<Rightarrow>
                 (let h = after_halt s
                  in if music_finished_hook s then h\<lparr>calls := calls h @ [Finished_hook]\<rparr>
                     else h))"
proof (cases "music_playing s")
  case None
  then show ?thesis by (simp add: Mix_HaltMusic_def)
next
  case (Some p)
  show ?thesis
    using Some halt_if_playing [of s] by (simp add: Mix_HaltMusic_def Let_def)
qed

subsection \<open>The decoder registry\<close>

lemma add_music_decoders_registry:
  "registry_ok s \<Longrightarrow>
     registry_ok (add_music_decoders ds s) \<and>
     music_decoders (add_music_decoders ds s) = music_decoders s @ registered_names ds"
proof (induction ds arbitrary: s)
  case Nil
  then show ?case by (simp add: registered_names_def)
next
  case (Cons d ds)
  obtain ok name where d: "d = (ok, name)" by (cases d)
  have ok1: "registry_ok (add_music_decoder ok name s)"
    using Cons.prems by (simp add: registry_ok_def add_music_decoder_def)
  have dec: "music_decoders (add_music_decoder ok name s) =
      music_decoders s @ (if ok then [name] else [])"
    using Cons.prems by (simp add: registry_ok_def add_music_decoder_def)
  show ?case
    using Cons.IH [OF ok1] dec by (simp add: d registered_names_def)
qed

lemma Mix_GetMusicDecoder_in_registry:
  "registry_ok s \<Longrightarrow>
     Mix_GetMusicDecoder index s =
       Inr (if 0 \<le> index \<and> index < int (length (music_decoders s))
            then Some (music_decoders s ! nat index) else None)"
  by (auto simp: registry_ok_def Mix_GetMusicDecoder_def)

section \<open>The claims\<close>

subsection \<open>C1: a start position on a format that cannot seek\<close>




subsection \<open>C2: the read position after detection\<close>

text \<open>
  When both reads are complete, \<open>detect_music_type\<close> seeks back to where it started
  (\<open>detect_music_type_full_read\<close> above: the source comes back unchanged). When a read
  is short it takes the early return, before the seek, and the source stays where the
  reads left it: at the end of its data.
\<close>

lemma detect_music_type_short_source:
  assumes "rw_pos src \<le> length (rw_data src)" and "length (rw_data src) < rw_pos src + 12"
  shows "detect_music_type src s =
     (MUS_NONE, src\<lparr>rw_pos := length (rw_data src)\<rparr>,
      Mix_SetError ''Couldn't read from RWops'' s)"
proof (cases "length (rw_data src) < rw_pos src + 4")
  case True
  then show ?thesis
    using assms by (simp add: detect_music_type_def SDL_RWread_def Let_def min_def)
next
  case False
  then have "rw_pos src + 4 \<le> length (rw_data src)" by simp
  then have r1: "SDL_RWread src 4 =
      (take 4 (drop (rw_pos src) (rw_data src)), 4, src\<lparr>rw_pos := rw_pos src + 4\<rparr>)"
    by (rule SDL_RWread_enough)
  let ?got = "take 8 (drop (rw_pos src + 4) (rw_data src))"
  have n2: "length ?got \<noteq> 8"
    using assms False by simp
  have p2: "rw_pos src + 4 + length ?got = length (rw_data src)"
    using assms False by simp
  have r2: "SDL_RWread (src\<lparr>rw_pos := rw_pos src + 4\<rparr>) 8 =
      (?got, length ?got, src\<lparr>rw_pos := length (rw_data src)\<rparr>)"
    using p2 by (simp add: SDL_RWread_def Let_def)
  show ?thesis
    unfolding detect_music_type_def r1
    using n2 by (simp add: r2 Let_def del: length_take)
qed

text \<open>
  C2 says that detection leaves the read position unchanged, a short read included. On
  a source of six bytes read from its start, the code returns \<open>MUS_NONE\<close> with the
  position at 6, not at 0.
\<close>

theorem detect_music_type_short_read:
  "SDL_RWtell short_source = 0 \<and>
   detect_music_type short_source initial_state =
     (MUS_NONE, short_source\<lparr>rw_pos := 6\<rparr>,
      Mix_SetError ''Couldn't read from RWops'' initial_state)"
proof -
  have "rw_pos short_source \<le> length (rw_data short_source)"
    and "length (rw_data short_source) < rw_pos short_source + 12"
    and len: "length (rw_data short_source) = 6"
    by (simp_all add: short_source_def ascii_def)
  then show ?thesis
    using detect_music_type_short_source [of short_source initial_state]
    by (simp add: SDL_RWtell_def short_source_def)
qed

subsection \<open>C3: a fade-out issued during a fade\<close>

text \<open>
  On the values the controller produces (a positive step length, a fade in progress with
  \<open>0 \<le> fade_step \<le> fade_steps\<close> and a positive total, products within \<^verbatim>\<open>int\<close>)
  the call returns. A fade whose total is zero, which a fade-in shorter than one step
  leaves behind until the next callback, makes the division fail instead.
\<close>

lemma Mix_FadeOutMusic_returns:
  assumes mps: "0 < ms_per_step s" and ms: "0 < ms" and sum: "ms + ms_per_step s \<le> INT_MAX"
    and p: "music_playing s = Some p" and f: "fading (tracks s p) \<noteq> MIX_NO_FADING"
    and old: "0 < fade_steps (tracks s p)"
    and st: "0 \<le> fade_step (tracks s p)" "fade_step (tracks s p) \<le> fade_steps (tracks s p)"
    and prod: "(fade_steps (tracks s p) + 1) * ((ms + ms_per_step s - 1) div ms_per_step s)
                 \<le> INT_MAX"
  shows "\<exists>s'. Mix_FadeOutMusic ms s = Inr (1, s')"
proof -
  define N where "N = (ms + ms_per_step s - 1) div ms_per_step s"
  define E where "E = elapsed_equivalent_steps (tracks s p)"
  have neg: "INT_MIN < 0" by (simp add: INT_MIN_def)
  have a: "c_add ms (ms_per_step s) = Inr (ms + ms_per_step s)"
    using mps ms sum neg by (simp add: c_add_def c_int_in_range)
  have b: "c_sub (ms + ms_per_step s) 1 = Inr (ms + ms_per_step s - 1)"
    using mps ms sum neg by (simp add: c_sub_def c_int_in_range)
  have c: "c_div (ms + ms_per_step s - 1) (ms_per_step s) = Inr N"
    using mps ms sum neg by (simp add: c_div_in_range trunc_div_nonneg N_def)
  have "ms_per_step s div ms_per_step s \<le> N"
    unfolding N_def using mps ms by (intro zdiv_mono1) simp_all
  then have N1: "1 \<le> N" using mps by simp
  have "(fade_steps (tracks s p) + 1) * 1 \<le> (fade_steps (tracks s p) + 1) * N"
    using N1 old by (intro mult_left_mono) simp_all
  then have old_max: "fade_steps (tracks s p) + 1 \<le> INT_MAX"
    using prod by (simp add: N_def)
  have E_range: "0 \<le> E \<and> E \<le> fade_steps (tracks s p) + 1"
    using st by (simp add: E_def elapsed_equivalent_steps_def)
  have e: "(if fading (tracks s p) = MIX_FADING_OUT
               then Inr (fade_step (tracks s p))
               else and_then (c_sub (fade_steps (tracks s p)) (fade_step (tracks s p)))
                      (\<lambda>d. c_add d 1)) = Inr E"
    using st old_max neg
    by (simp add: E_def elapsed_equivalent_steps_def c_sub_def c_add_def c_int_in_range)
  have "E * N \<le> (fade_steps (tracks s p) + 1) * N"
    using E_range N1 by (intro mult_right_mono) simp_all
  moreover have "(fade_steps (tracks s p) + 1) * N \<le> INT_MAX"
    using prod by (simp only: N_def)
  moreover have "0 \<le> E * N"
    using E_range N1 by simp
  ultimately have EN: "0 \<le> E * N \<and> E * N \<le> INT_MAX"
    by linarith
  have m: "c_mul E N = Inr (E * N)"
    using EN neg by (simp add: c_mul_def c_int_in_range)
  have d: "c_div (E * N) (fade_steps (tracks s p)) =
      Inr (trunc_div (E * N) (fade_steps (tracks s p)))"
    using EN neg old by (intro c_div_in_range) simp_all
  show ?thesis
    using mps ms p f by (simp add: Mix_FadeOutMusic_def a b c e m d Let_def)
qed


lemma Mix_FadeOutMusic_zero_total:
  "(case returned (Mix_FadeInMusicPos id (Some 1) 0 5 0 opened_state) of
      Some (r, s') \<Rightarrow> Mix_FadeOutMusic 100 s'
    | None \<Rightarrow> Inr (0, opened_state)) = Inl Div_by_zero"
proof -
  have h1: "ms_per_step opened_state \<noteq> 0"
    by (simp add: opened_state_def)
  have h3: "\<not> fade_out_pending opened_state"
    by (simp add: fade_out_pending_def opened_state_def initial_state_def)
  have h4: "INT_MIN < 5" and h5: "5 \<le> INT_MAX"
    by (simp_all add: INT_MIN_def INT_MAX_def)
  have wav: "type (tracks opened_state 1) = MUS_WAV"
    by (simp add: opened_state_def wav_track_def)
  show ?thesis
    unfolding Mix_FadeInMusicPos_idle [OF h1 h3 h4 h5]
    using wav
    by (simp add: music_internal_play_cases returned_def started_def after_halt_def
        opened_state_def initial_state_def wav_track_def Mix_FadeOutMusic_def
        c_add_def c_sub_def c_mul_def c_div_def c_int_def INT_MIN_def INT_MAX_def
        trunc_div_def Let_def)
qed

text \<open>
  C3 says that \<open>FadeOut(ms)\<close> with \<open>ms > 0\<close>, issued while the active track is fading in
  either direction, sets \<open>fade_step\<close> to \<open>round (elapsed * new_total / old_total)\<close>
  and the fade state to \<open>MIX_FADING_OUT\<close>. The code divides in \<^verbatim>\<open>int\<close>: the quotient
  is truncated, not rounded. What holds (C3 as amended): with the device open, an old
  total that is not zero and every arithmetic result within \<^verbatim>\<open>int\<close>, such a call
  returns \<open>1\<close> and changes the active track only: its fade state becomes
  \<open>MIX_FADING_OUT\<close>, its total becomes the quotient of \<open>ms + ms_per_step - 1\<close> by
  \<open>ms_per_step\<close>, and its \<open>fade_step\<close> becomes the quotient of
  \<open>elapsed * new_total\<close> by \<open>old_total\<close> truncated towards zero, where \<open>elapsed\<close> is
  \<open>fade_step\<close> when fading out and \<open>old_total - fade_step + 1\<close> when fading in.
\<close>

theorem Mix_FadeOutMusic_rescales:
  assumes "ms_per_step s \<noteq> 0" and "0 < ms" and "music_playing s = Some p"
    and "fading (tracks s p) \<noteq> MIX_NO_FADING"
    and "fade_steps (tracks s p) \<noteq> 0"
    and "rescale_fits ms (ms_per_step s) (tracks s p)"
  shows "Mix_FadeOutMusic ms s =
     Inr (1, s\<lparr>tracks := (tracks s)
               (p := (tracks s p)
                  \<lparr>fading := MIX_FADING_OUT,
                   fade_step :=
                     trunc_div (elapsed_equivalent_steps (tracks s p) *
                                  new_fade_total ms (ms_per_step s))
                       (fade_steps (tracks s p)),
                   fade_steps := new_fade_total ms (ms_per_step s)\<rparr>)\<rparr>)"
proof -
  let ?N = "new_fade_total ms (ms_per_step s)"
  let ?E = "elapsed_equivalent_steps (tracks s p)"
  note fits = assms(6) [unfolded rescale_fits_def]
  have a: "c_add ms (ms_per_step s) = Inr (ms + ms_per_step s)"
    using fits by (simp add: c_add_def c_int_fits)
  have b: "c_sub (ms + ms_per_step s) 1 = Inr (ms + ms_per_step s - 1)"
    using fits by (simp add: c_sub_def c_int_fits)
  have c: "c_div (ms + ms_per_step s - 1) (ms_per_step s) = Inr ?N"
    using fits assms(1) by (simp add: c_div_def c_int_fits new_fade_total_def)
  have e: "(if fading (tracks s p) = MIX_FADING_OUT
               then Inr (fade_step (tracks s p))
               else and_then (c_sub (fade_steps (tracks s p)) (fade_step (tracks s p)))
                      (\<lambda>d. c_add d 1)) = Inr ?E"
  proof (cases "fading (tracks s p) = MIX_FADING_OUT")
    case True
    then show ?thesis by (simp add: elapsed_equivalent_steps_def)
  next
    case False
    then have "fits_int (fade_steps (tracks s p) - fade_step (tracks s p))"
      and "fits_int (fade_steps (tracks s p) - fade_step (tracks s p) + 1)"
      using fits by simp_all
    then show ?thesis
      using False by (simp add: elapsed_equivalent_steps_def c_sub_def c_add_def c_int_fits)
  qed
  have m: "c_mul ?E ?N = Inr (?E * ?N)"
    using fits by (simp add: c_mul_def c_int_fits)
  have d: "c_div (?E * ?N) (fade_steps (tracks s p)) =
      Inr (trunc_div (?E * ?N) (fade_steps (tracks s p)))"
    using fits assms(5) by (simp add: c_div_def c_int_fits)
  show ?thesis
    using assms(1-4) by (simp add: Mix_FadeOutMusic_def a b c e m d Let_def)
qed

text \<open>
  A fade-in at step 30 of 90, turned into a fade-out of 250 ms with 11 ms per step: the
  new total is 23 steps, the elapsed progress counts for 61 steps, and the new step is
  \<open>61 * 23\<close> divided by 90 and truncated, 15.
\<close>

theorem Mix_FadeOutMusic_rescales_witness:
  "ms_per_step fading_in_state \<noteq> 0 \<and> (0 :: int) < 250 \<and>
   music_playing fading_in_state = Some 1 \<and>
   fading (tracks fading_in_state 1) \<noteq> MIX_NO_FADING \<and>
   fade_steps (tracks fading_in_state 1) \<noteq> 0 \<and>
   rescale_fits 250 (ms_per_step fading_in_state) (tracks fading_in_state 1) \<and>
   map_sum id fst (Mix_FadeOutMusic 250 fading_in_state) = Inr 1 \<and>
   track_after 1 (Mix_FadeOutMusic 250 fading_in_state) =
     Some (wav_track\<lparr>fading := MIX_FADING_OUT, fade_step := 15, fade_steps := 23\<rparr>)"
proof -
  have mps: "ms_per_step fading_in_state = 11"
    by (simp add: fading_in_state_def playing_state_def opened_state_def)
  have tr: "tracks fading_in_state 1 =
      wav_track\<lparr>fading := MIX_FADING_IN, fade_step := 30, fade_steps := 90\<rparr>"
    by (simp add: fading_in_state_def)
  have N: "new_fade_total 250 11 = 23"
    by (simp add: new_fade_total_def trunc_div_def)
  have E: "elapsed_equivalent_steps
             (wav_track\<lparr>fading := MIX_FADING_IN, fade_step := 30, fade_steps := 90\<rparr>) = 61"
    by (simp add: elapsed_equivalent_steps_def)
  have q: "trunc_div 1403 90 = 15"
    by (simp add: trunc_div_def)
  have h1: "ms_per_step fading_in_state \<noteq> 0" by (simp add: mps)
  have h2: "(0 :: int) < 250" by simp
  have h3: "music_playing fading_in_state = Some 1"
    by (simp add: fading_in_state_def playing_state_def)
  have h4: "fading (tracks fading_in_state 1) \<noteq> MIX_NO_FADING"
    unfolding tr by simp
  have h5: "fade_steps (tracks fading_in_state 1) \<noteq> 0"
    unfolding tr by simp
  have h6: "rescale_fits 250 (ms_per_step fading_in_state) (tracks fading_in_state 1)"
    unfolding mps tr rescale_fits_def N E
    by (simp add: fits_int_def INT_MIN_def INT_MAX_def q)
  have run: "Mix_FadeOutMusic 250 fading_in_state =
      Inr (1, fading_in_state\<lparr>tracks := (tracks fading_in_state)
        (1 := wav_track\<lparr>fading := MIX_FADING_OUT, fade_step := 15, fade_steps := 23\<rparr>)\<rparr>)"
    using Mix_FadeOutMusic_rescales [OF h1 h2 h3 h4 h5 h6]
    unfolding mps tr N E by (simp add: q)
  show ?thesis
    using h1 h3 h4 h5 h6 by (simp add: run track_after_def)
qed

text \<open>
  The claim fails where the exact quotient has a fractional part of one half or more. A
  fade-out at step 12 of 46, shortened to 100 ms (10 steps): the exact value is
  \<open>120 / 46\<close>, about 2.61, which rounds to 3; the code stores 2.
\<close>

theorem Mix_FadeOutMusic_round_counterexample:
  "track_after 1 (Mix_FadeOutMusic 100 fading_state) =
     Some (wav_track\<lparr>fading := MIX_FADING_OUT, fade_step := 2, fade_steps := 10\<rparr>) \<and>
   round (real_of_int (12 * 10) / real_of_int 46) = (3 :: int)"
proof
  show "track_after 1 (Mix_FadeOutMusic 100 fading_state) =
     Some (wav_track\<lparr>fading := MIX_FADING_OUT, fade_step := 2, fade_steps := 10\<rparr>)"
    by (simp add: Mix_FadeOutMusic_def fading_state_def playing_state_def opened_state_def
        initial_state_def wav_track_def track_after_def c_add_def c_sub_def c_mul_def c_div_def
        c_int_def INT_MIN_def INT_MAX_def trunc_div_def Let_def)
  show "round (real_of_int (12 * 10) / real_of_int 46) = (3 :: int)"
    by (simp add: round_def floor_eq_iff)
qed

subsection \<open>C4: the classification rules\<close>

text \<open>
  C4: on every source with twelve bytes to read, \<open>detect_music_type\<close> answers what the
  rules of the specification answer on those twelve bytes, in their order: RIFF with
  WAVE at offset 8, or FORM, is WAV; OggS is OGG; fLaC is FLAC; MThd is MIDI; an ID3
  prefix or a header passing the frame-sync test is MP3; everything else is MOD.
\<close>

theorem detect_music_type_classifies:
  assumes "rw_pos src + 12 \<le> length (rw_data src)"
  shows "fst (detect_music_type src s) =
           spec_detect (take 12 (drop (rw_pos src) (rw_data src)))"
  by (simp add: detect_music_type_full_read [OF assms])

theorem detect_music_type_classifies_witness:
  "rw_pos wav_source + 12 \<le> length (rw_data wav_source) \<and>
   fst (detect_music_type wav_source initial_state) = MUS_WAV"
proof -
  have h: "rw_pos wav_source + 12 \<le> length (rw_data wav_source)"
    by (simp add: wav_source_def ascii_def)
  have "spec_detect (take 12 (drop (rw_pos wav_source) (rw_data wav_source))) = MUS_WAV"
    by (simp add: spec_detect_def wav_source_def ascii_def)
  then show ?thesis
    using h detect_music_type_classifies [OF h, of initial_state] by simp
qed

subsection \<open>C5: the loop count 1\<close>



subsection \<open>C6: is music playing\<close>

text \<open>
  C6: \<open>Mix_PlayingMusic\<close> answers true exactly when a track is active and the loop
  count is not zero or the dispatch \<open>music_internal_playing\<close> reports the track active,
  which it does for a WAV track whose decoder answers that it is active (\<open>wav_active\<close>
  being the decoder's answer). The answer is 0 or 1. In particular an active track
  with a loop count that is not zero counts as playing while the decoder reports the
  stream exhausted, as it does in the callback cycle after the natural end of the
  track.
\<close>

theorem Mix_PlayingMusic_iff:
  "(Mix_PlayingMusic wav_active s \<noteq> 0) =
     (music_playing s \<noteq> None \<and>
        (music_loops s \<noteq> 0 \<or> music_internal_playing wav_active s \<noteq> 0)) \<and>
   (music_internal_playing wav_active s \<noteq> 0) =
     (\<exists>p. music_playing s = Some p \<and> type (tracks s p) = MUS_WAV \<and> wav_active) \<and>
   (Mix_PlayingMusic wav_active s = 0 \<or> Mix_PlayingMusic wav_active s = 1) \<and>
   (music_playing s \<noteq> None \<and> music_loops s \<noteq> 0 \<longrightarrow> Mix_PlayingMusic False s = 1)"
proof (intro conjI)
  show "(Mix_PlayingMusic wav_active s \<noteq> 0) =
     (music_playing s \<noteq> None \<and>
        (music_loops s \<noteq> 0 \<or> music_internal_playing wav_active s \<noteq> 0))"
    by (cases "music_playing s") (simp_all add: Mix_PlayingMusic_def)
  show "(music_internal_playing wav_active s \<noteq> 0) =
     (\<exists>p. music_playing s = Some p \<and> type (tracks s p) = MUS_WAV \<and> wav_active)"
    by (cases "music_playing s")
      (simp_all add: music_internal_playing_def split: Mix_MusicType.splits)
  show "Mix_PlayingMusic wav_active s = 0 \<or> Mix_PlayingMusic wav_active s = 1"
    by (cases "music_playing s") (simp_all add: Mix_PlayingMusic_def)
  show "music_playing s \<noteq> None \<and> music_loops s \<noteq> 0 \<longrightarrow> Mix_PlayingMusic False s = 1"
    by (cases "music_playing s") (simp_all add: Mix_PlayingMusic_def)
qed

theorem Mix_PlayingMusic_iff_witness:
  "music_playing (playing_state\<lparr>music_loops := 2\<rparr>) \<noteq> None \<and>
   music_loops (playing_state\<lparr>music_loops := 2\<rparr>) \<noteq> 0 \<and>
   music_internal_playing False (playing_state\<lparr>music_loops := 2\<rparr>) = 0 \<and>
   Mix_PlayingMusic False (playing_state\<lparr>music_loops := 2\<rparr>) = 1"
proof -
  have h: "music_playing (playing_state\<lparr>music_loops := 2\<rparr>) \<noteq> None \<and>
      music_loops (playing_state\<lparr>music_loops := 2\<rparr>) \<noteq> 0"
    by (simp add: playing_state_def)
  have "music_internal_playing False (playing_state\<lparr>music_loops := 2\<rparr>) = 0"
    by (simp add: music_internal_playing_def playing_state_def opened_state_def wav_track_def)
  then show ?thesis
    using h Mix_PlayingMusic_iff [of False "playing_state\<lparr>music_loops := 2\<rparr>"] by simp
qed

subsection \<open>C7: the master volume\<close>

text \<open>
  C7: \<open>Mix_VolumeMusic\<close> always returns the previous volume. A negative argument
  changes nothing. An argument that is not negative is stored, cut down to
  \<^verbatim>\<open>SDL_MIX_MAXVOLUME\<close> when larger, so that the stored value lies between 0 and the
  maximum; with a track active the stored value goes to the decoder at once, through
  \<open>music_internal_volume\<close>, which for a WAV track calls \<^verbatim>\<open>WAVStream_SetVolume\<close>. A
  volume within the range stays within the range whatever the argument.
\<close>

theorem Mix_VolumeMusic_clamps:
  "\<exists>s'. Mix_VolumeMusic volume s = Inr (music_volume s, s') \<and>
     (volume < 0 \<longrightarrow> s' = s) \<and>
     (0 \<le> volume \<longrightarrow>
        music_volume s' = min volume SDL_MIX_MAXVOLUME \<and>
        0 \<le> music_volume s' \<and> music_volume s' \<le> SDL_MIX_MAXVOLUME \<and>
        (case music_playing s of
           None \<Rightarrow> s' = s\<lparr>music_volume := min volume SDL_MIX_MAXVOLUME\<rparr>
         | Some p \<Rightarrow>
             music_internal_volume (min volume SDL_MIX_MAXVOLUME)
               (s\<lparr>music_volume := min volume SDL_MIX_MAXVOLUME\<rparr>) = Inr s' \<and>
             calls s' = calls s @
               (if type (tracks s p) = MUS_WAV
                then [WAVStream_SetVolume (min volume SDL_MIX_MAXVOLUME)] else []))) \<and>
     (0 \<le> music_volume s \<and> music_volume s \<le> SDL_MIX_MAXVOLUME \<longrightarrow>
        0 \<le> music_volume s' \<and> music_volume s' \<le> SDL_MIX_MAXVOLUME)"
proof (cases "volume < 0")
  case True
  then show ?thesis by (simp add: Mix_VolumeMusic_def)
next
  case False
  let ?v = "min volume SDL_MIX_MAXVOLUME"
  have v: "(if volume > SDL_MIX_MAXVOLUME then SDL_MIX_MAXVOLUME else volume) = ?v"
    by (simp add: min_def)
  have range: "0 \<le> ?v \<and> ?v \<le> SDL_MIX_MAXVOLUME"
    using False by (simp add: SDL_MIX_MAXVOLUME_def)
  show ?thesis
  proof (cases "music_playing s")
    case None
    then show ?thesis
      using False range by (simp add: Mix_VolumeMusic_def Let_def v)
  next
    case (Some p)
    have p1: "music_playing (s\<lparr>music_volume := ?v\<rparr>) = Some p"
      using Some by simp
    show ?thesis
      using False range Some
      by (simp add: Mix_VolumeMusic_def Let_def v music_internal_volume_active [OF p1])
  qed
qed

theorem Mix_VolumeMusic_clamps_witness:
  "map_sum id fst (Mix_VolumeMusic 200 playing_state) = Inr 128 \<and>
   map_sum id (music_volume \<circ> snd) (Mix_VolumeMusic 200 playing_state) = Inr 128 \<and>
   map_sum id (calls \<circ> snd) (Mix_VolumeMusic 200 playing_state) =
     Inr [WAVStream_SetVolume 128] \<and>
   map_sum id (music_volume \<circ> snd)
     (Mix_VolumeMusic (- 1) (playing_state\<lparr>music_volume := 40\<rparr>)) = Inr 40"
proof -
  have p: "music_playing playing_state = Some 1" and c: "calls playing_state = []"
    and t: "type (tracks playing_state 1) = MUS_WAV" and v: "music_volume playing_state = 128"
    by (simp_all add: playing_state_def opened_state_def initial_state_def wav_track_def
        MIX_MAX_VOLUME_def)
  from Mix_VolumeMusic_clamps [of 200 playing_state]
  obtain s' where
    "Mix_VolumeMusic 200 playing_state = Inr (music_volume playing_state, s')"
    and "music_volume s' = min 200 SDL_MIX_MAXVOLUME"
    and "calls s' = calls playing_state @ [WAVStream_SetVolume (min 200 SDL_MIX_MAXVOLUME)]"
    using p t by auto
  moreover
  from Mix_VolumeMusic_clamps [of "- 1" "playing_state\<lparr>music_volume := 40\<rparr>"]
  have "Mix_VolumeMusic (- 1) (playing_state\<lparr>music_volume := 40\<rparr>) =
      Inr (40, playing_state\<lparr>music_volume := 40\<rparr>)"
    by auto
  ultimately show ?thesis
    using c v by (simp add: SDL_MIX_MAXVOLUME_def)
qed

subsection \<open>C8: a fade-out of no duration\<close>

text \<open>
  C8: with the device open, \<open>Mix_FadeOutMusic ms\<close> with \<open>ms \<le> 0\<close> is an immediate
  halt: it leaves the state that \<open>Mix_HaltMusic\<close> leaves, and returns 1. With a track
  active, the finished notification, which is the hook the application registered, is
  invoked exactly once (there is nothing to invoke when no hook is registered); a WAV
  track is stopped, its fade state cleared, and no track is active afterwards. With no
  track active nothing changes.
\<close>

theorem Mix_FadeOutMusic_nonpositive:
  assumes "ms_per_step s \<noteq> 0" and "ms \<le> 0"
  shows "\<exists>s'. Mix_HaltMusic s = Inr (0, s') \<and> Mix_FadeOutMusic ms s = Inr (1, s') \<and>
           (case music_playing s of
              None \<Rightarrow> s' = s
            | Some p \<Rightarrow>
                hook_count (calls s') =
                  hook_count (calls s) + (if music_finished_hook s then 1 else 0) \<and>
                (type (tracks s p) = MUS_WAV \<longrightarrow>
                   music_playing s' = None \<and> fading (tracks s' p) = MIX_NO_FADING \<and>
                   calls s' = calls s @ [WAVStream_Stop] @
                     (if music_finished_hook s then [Finished_hook] else [])))"
proof (cases "music_playing s")
  case None
  then show ?thesis
    using assms by (simp add: Mix_FadeOutMusic_def Mix_HaltMusic_result)
next
  case (Some p)
  then show ?thesis
    using assms
    by (simp add: Mix_FadeOutMusic_def Mix_HaltMusic_result Let_def after_halt_def)
qed

theorem Mix_FadeOutMusic_nonpositive_witness:
  "ms_per_step hooked_state \<noteq> 0 \<and> (0 :: int) \<le> 0 \<and>
   music_playing hooked_state = Some 1 \<and> music_finished_hook hooked_state \<and>
   map_sum id fst (Mix_FadeOutMusic 0 hooked_state) = Inr 1 \<and>
   map_sum id (hook_count \<circ> calls \<circ> snd) (Mix_FadeOutMusic 0 hooked_state) = Inr 1 \<and>
   map_sum id (music_playing \<circ> snd) (Mix_FadeOutMusic 0 hooked_state) = Inr None"
proof -
  have h1: "ms_per_step hooked_state \<noteq> 0" and h2: "(0 :: int) \<le> 0"
    and p: "music_playing hooked_state = Some 1" and k: "music_finished_hook hooked_state"
    and c: "calls hooked_state = []" and t: "type (tracks hooked_state 1) = MUS_WAV"
    by (simp_all add: hooked_state_def Mix_HookMusicFinished_def fading_state_def
        playing_state_def opened_state_def initial_state_def wav_track_def)
  from Mix_FadeOutMusic_nonpositive [OF h1 h2]
  obtain s' where "Mix_FadeOutMusic 0 hooked_state = Inr (1, s')"
    and "hook_count (calls s') = hook_count (calls hooked_state) + 1"
    and "music_playing s' = None"
    using p k t by auto
  then show ?thesis
    using h1 p k c by simp
qed

subsection \<open>C9: the halt-or-loop check at the natural end of a track\<close>

text \<open>
  C9: when the check runs on an active WAV track whose decoder reports the stream
  exhausted, then with a loop count that is not zero the count is decremented when
  positive and kept when negative, the decoder is stopped, given the master volume and
  started again on the track, the track stays active, and every track's fade state,
  step and total are what they were before; the check returns 1. With a loop count of
  zero the decoder is stopped, the track's fade state is cleared, no track is active,
  the finished hook is invoked when one is registered, and the check returns 0.
  The track is a WAV track because no other kind is ever left active
  (\<open>music_internal_play_active_is_wav\<close>).
\<close>

theorem music_halt_or_loop_natural_end:
  assumes "music_playing s = Some p" and "type (tracks s p) = MUS_WAV"
  shows "music_halt_or_loop False s =
     Inr (if music_loops s \<noteq> 0
          then (1, s\<lparr>music_loops :=
                        (if music_loops s > 0 then music_loops s - 1 else music_loops s),
                      calls := calls s @
                        [WAVStream_Stop, WAVStream_SetVolume (music_volume s),
                         WAVStream_Start (wave (tracks s p))]\<rparr>)
          else (0, s\<lparr>calls := calls s @ [WAVStream_Stop] @
                        (if music_finished_hook s then [Finished_hook] else []),
                      tracks := (tracks s)(p := (tracks s p)\<lparr>fading := MIX_NO_FADING\<rparr>),
                      music_playing := None\<rparr>))"
proof (cases "music_loops s = 0")
  case True
  have np: "music_internal_playing False s = 0"
    using assms by (simp add: music_internal_playing_def)
  show ?thesis
    using True assms np
    by (simp add: music_halt_or_loop_def music_internal_halt_active)
next
  case False
  have np: "music_internal_playing False s = 0"
    using assms by (simp add: music_internal_playing_def)
  let ?s1 = "(if music_loops s > 0 then s\<lparr>music_loops := music_loops s - 1\<rparr> else s)"
  have p1: "music_playing ?s1 = Some p" and t1: "type (tracks ?s1 p) = MUS_WAV"
    and tr1: "tracks ?s1 = tracks s"
    using assms by simp_all
  have play: "music_internal_play p 0 ?s1 = Inr (0, started p ?s1)"
    using music_internal_play_wav [OF t1, of 0] by simp
  have st: "started p ?s1 =
      ?s1\<lparr>calls := calls s @ [WAVStream_Stop, WAVStream_SetVolume (music_volume s),
                         WAVStream_Start (wave (tracks s p))],
           tracks := (tracks s)(p := (tracks s p)\<lparr>fading := MIX_NO_FADING\<rparr>)\<rparr>"
    using assms by (simp add: started_def after_halt_def Let_def)
  show ?thesis
    using False np p1
    by (simp add: music_halt_or_loop_def Let_def play tr1 st)
qed

theorem music_halt_or_loop_natural_end_witness:
  "music_playing (fading_in_state\<lparr>music_loops := 2\<rparr>) = Some 1 \<and>
   type (tracks (fading_in_state\<lparr>music_loops := 2\<rparr>) 1) = MUS_WAV \<and>
   music_halt_or_loop False (fading_in_state\<lparr>music_loops := 2\<rparr>) =
     Inr (1, fading_in_state\<lparr>music_loops := 1,
               calls := [WAVStream_Stop, WAVStream_SetVolume 128, WAVStream_Start 7]\<rparr>) \<and>
   fading (tracks fading_in_state 1) = MIX_FADING_IN"
proof -
  let ?s = "fading_in_state\<lparr>music_loops := 2\<rparr>"
  have p: "music_playing ?s = Some 1" and t: "type (tracks ?s 1) = MUS_WAV"
    and f: "fading (tracks fading_in_state 1) = MIX_FADING_IN"
    by (simp_all add: fading_in_state_def playing_state_def wav_track_def)
  have c: "calls ?s = []" and v: "music_volume ?s = 128" and w: "wave (tracks ?s 1) = 7"
    by (simp_all add: fading_in_state_def playing_state_def opened_state_def
        initial_state_def wav_track_def MIX_MAX_VOLUME_def)
  show ?thesis
    using music_halt_or_loop_natural_end [OF p t] p t f c v w by simp
qed

subsection \<open>C10: the decoder names\<close>

text \<open>
  C10: after any sequence of registrations from the initial state, with or without
  allocation failures, \<open>Mix_GetMusicDecoder\<close> never reads out of range: for an index
  that is negative or not below the number of registered decoders it returns NULL, and
  for every other index it returns the name registered at that position.
\<close>

theorem Mix_GetMusicDecoder_registered:
  "Mix_GetMusicDecoder index (add_music_decoders ds initial_state) =
     Inr (if 0 \<le> index \<and> index < int (length (registered_names ds))
          then Some (registered_names ds ! nat index) else None) \<and>
   Mix_GetNumMusicDecoders (add_music_decoders ds initial_state) =
     int (length (registered_names ds))"
proof -
  have ok0: "registry_ok initial_state"
    by (simp add: registry_ok_def initial_state_def)
  note r = add_music_decoders_registry [OF ok0, of ds]
  have names: "music_decoders (add_music_decoders ds initial_state) = registered_names ds"
    using r by (simp add: initial_state_def)
  then have "Mix_GetNumMusicDecoders (add_music_decoders ds initial_state) =
     int (length (registered_names ds))"
    using r by (simp add: Mix_GetNumMusicDecoders_def registry_ok_def)
  then show ?thesis
    using Mix_GetMusicDecoder_in_registry [of "add_music_decoders ds initial_state" index]
      r names
    by simp
qed

theorem Mix_GetMusicDecoder_registered_witness:
  "Mix_GetMusicDecoder 0 (add_music_decoders [(False, ''OGG''), (True, ''WAVE'')] initial_state)
     = Inr (Some ''WAVE'') \<and>
   Mix_GetMusicDecoder 1 (add_music_decoders [(False, ''OGG''), (True, ''WAVE'')] initial_state)
     = Inr None \<and>
   Mix_GetMusicDecoder (- 1)
     (add_music_decoders [(False, ''OGG''), (True, ''WAVE'')] initial_state) = Inr None"
  using Mix_GetMusicDecoder_registered [of 0 "[(False, ''OGG''), (True, ''WAVE'')]"]
    Mix_GetMusicDecoder_registered [of 1 "[(False, ''OGG''), (True, ''WAVE'')]"]
    Mix_GetMusicDecoder_registered [of "- 1" "[(False, ''OGG''), (True, ''WAVE'')]"]
  by (simp add: registered_names_def)


end
